theory Spec2Isabelle
  imports Complex_Main "HOL-Library.Multiset"
begin

section \<open>The memory-augmented dialogue agent (agent/memory.py, agent/graph.py)\<close>

text \<open>
  The development embeds the long-term memory class \<open>LongTermMemory\<close> of
  \<^verbatim>\<open>agent/memory.py\<close> and the three graph nodes of \<^verbatim>\<open>agent/graph.py\<close>.
  Python strings are lists of characters; \<open>length\<close> stands for Python's \<open>len\<close>, a
  character of the model standing for one code point of the program.
  Exceptions are values: a function that may raise returns \<open>error + 'a\<close>.
\<close>

datatype error =
    EmbeddingUnavailable
  | GenerationFailed
  | StoreCorruptError
  | JSONDecodeError
  | KeyError
  | IndexError
  | UnboundLocalError

subsection \<open>Documents, vectors and the vector store\<close>

type_synonym vector = "real list"

text \<open>A langchain \<open>Document\<close>: the text and the metadata dictionary, in key order.\<close>

record document =
  page_content :: string
  metadata :: "(string \<times> string) list"

text \<open>
  The FAISS store: the indexed vectors with their documents, in insertion order. Every
  insertion draws a fresh identifier (a \<open>uuid4\<close>), so the docstore dictionary has one
  entry per element of this list.
\<close>

type_synonym faiss = "(vector \<times> document) list"

text \<open>What a path of the file system holds: a serialised index, or bytes that do not load.\<close>

datatype stored = Index faiss | Garbage

text \<open>
  One entry of the \<open>memories\<close> array of the seed file; a key of the JSON object that is
  absent is \<open>None\<close>.
\<close>

record seed =
  seed_fact :: "string option"
  seed_topic :: "string option"
  seed_confidence :: "string option"

text \<open>
  The part of the file system the program reads and writes: what lies at each index path,
  and the seed file \<open>MEMORIES_FILE\<close> (\<open>None\<close>: the file does not exist; its value is the
  \<open>memories\<close> key of the JSON object, \<open>None\<close> when the key is absent).
\<close>

record filesystem =
  index_files :: "string \<rightharpoonup> stored"
  memories_file :: "seed list option option"

subsection \<open>The providers and the configuration\<close>

datatype message = HumanMessage string | AIMessage string | SystemMessage string

datatype json =
    JNull
  | JBool bool
  | JNumber int
  | JString string
  | JArray "json list"
  | JObject "(string \<times> json) list"

text \<open>
  The collaborators the program is given: the embedding function returned by
  \<open>_get_embedding_function\<close>, the chat model returned by \<open>create_llm\<close> (its \<open>invoke\<close>,
  returning the content of the answer), Python's \<open>json.loads\<close>, the constants of
  \<^verbatim>\<open>agent/config.py\<close>, the prompt texts built by \<^verbatim>\<open>agent/prompt.py\<close>, and the
  string literals of \<^verbatim>\<open>graph.py\<close> that are not ASCII.
\<close>

record env =
  embed :: "string \<Rightarrow> error + vector"
  llm_invoke :: "message list \<Rightarrow> error + string"
  json_loads :: "string \<Rightarrow> error + json"
  SHORT_TERM_WINDOW :: int
  LONG_TERM_TOP_K :: int
  FAISS_INDEX_PATH :: string
  system_prompt :: string
  fewshot_messages :: "message list"
  memory_header :: string
  extract_instruction :: string
  user_label :: string

subsection \<open>The FAISS operations the program calls\<close>

text \<open>\<open>embed_documents\<close>: every text is embedded, the first failure is raised.\<close>

fun embed_documents :: "env \<Rightarrow> document list \<Rightarrow> error + faiss" where
  "embed_documents E [] = Inr []"
| "embed_documents E (d # ds) =
     (case embed E (page_content d) of
        Inl e \<Rightarrow> Inl e
      | Inr v \<Rightarrow>
          (case embed_documents E ds of
             Inl e \<Rightarrow> Inl e
           | Inr vs \<Rightarrow> Inr ((v, d) # vs)))"

text \<open>
  \<open>FAISS.from_documents\<close>: embeds the texts, then sizes the index by the first vector,
  which an empty list does not have.
\<close>

definition from_documents :: "env \<Rightarrow> document list \<Rightarrow> error + faiss" where
  "from_documents E docs =
     (case embed_documents E docs of
        Inl e \<Rightarrow> Inl e
      | Inr vs \<Rightarrow> (if vs = [] then Inl IndexError else Inr vs))"

text \<open>\<open>add_documents\<close>: embeds the new texts and appends them to the index.\<close>

definition add_documents :: "env \<Rightarrow> faiss \<Rightarrow> document list \<Rightarrow> error + faiss" where
  "add_documents E vs docs =
     (case embed_documents E docs of
        Inl e \<Rightarrow> Inl e
      | Inr new \<Rightarrow> Inr (vs @ new))"

definition save_local :: "filesystem \<Rightarrow> string \<Rightarrow> faiss \<Rightarrow> filesystem" where
  "save_local fs path vs = fs\<lparr>index_files := (index_files fs)(path \<mapsto> Index vs)\<rparr>"

definition load_local :: "filesystem \<Rightarrow> string \<Rightarrow> error + faiss" where
  "load_local fs path =
     (case index_files fs path of
        Some (Index vs) \<Rightarrow> Inr vs
      | _ \<Rightarrow> Inl StoreCorruptError)"

text \<open>The squared Euclidean distance of the flat L2 index.\<close>

definition l2_distance :: "vector \<Rightarrow> vector \<Rightarrow> real" where
  "l2_distance u v = (\<Sum>p\<leftarrow>zip u v. (fst p - snd p)\<^sup>2)"

text \<open>
  Modelled from the spec: the ranking done by \<open>FAISS.similarity_search\<close>, a library
  function whose code is not part of the sources. The spec gives its contract: at most
  \<open>k\<close> records, most similar first, ties broken by earlier insertion order. The query is
  embedded first, and a failure of the embedding is raised.
\<close>

definition similarity_search :: "env \<Rightarrow> faiss \<Rightarrow> string \<Rightarrow> int \<Rightarrow> error + document list" where
  "similarity_search E vs query k =
     (case embed E query of
        Inl e \<Rightarrow> Inl e
      | Inr q \<Rightarrow> Inr (map snd (take (nat k) (sort_key (\<lambda>r. l2_distance q (fst r)) vs))))"

subsection \<open>LongTermMemory\<close>

record LongTermMemory =
  index_path :: string
  vectorstore :: "faiss option"

text \<open>\<open>_load_initial_memories\<close>: the documents of the seed file; \<open>mem["fact"]\<close> raises on a missing key.\<close>

fun seed_documents :: "seed list \<Rightarrow> error + document list" where
  "seed_documents [] = Inr []"
| "seed_documents (m # ms) =
     (case seed_fact m of
        None \<Rightarrow> Inl KeyError
      | Some f \<Rightarrow>
          (case seed_documents ms of
             Inl e \<Rightarrow> Inl e
           | Inr ds \<Rightarrow>
               Inr (\<lparr>page_content = f,
                     metadata = [(''topic'', case_option [] id (seed_topic m)),
                                 (''confidence'', case_option ''medium'' id (seed_confidence m)),
                                 (''source'', ''initial'')]\<rparr> # ds)))"

definition load_initial_memories :: "filesystem \<Rightarrow> error + document list" where
  "load_initial_memories fs =
     (case memories_file fs of
        None \<Rightarrow> Inr []
      | Some data \<Rightarrow> seed_documents (case_option [] id data))"

text \<open>
  \<open>_load_or_create\<close>: loads the index when the path exists; otherwise builds one from the
  seed documents and saves it, but only if there are any (\<open>if docs:\<close>).
\<close>

definition load_or_create ::
  "env \<Rightarrow> LongTermMemory \<Rightarrow> filesystem \<Rightarrow> error + (LongTermMemory \<times> filesystem)" where
  "load_or_create E self fs =
     (if index_files fs (index_path self) \<noteq> None then
        (case load_local fs (index_path self) of
           Inl e \<Rightarrow> Inl e
         | Inr vs \<Rightarrow> Inr (self\<lparr>vectorstore := Some vs\<rparr>, fs))
      else
        (case load_initial_memories fs of
           Inl e \<Rightarrow> Inl e
         | Inr docs \<Rightarrow>
             (if docs \<noteq> [] then
                (case from_documents E docs of
                   Inl e \<Rightarrow> Inl e
                 | Inr vs \<Rightarrow>
                     Inr (self\<lparr>vectorstore := Some vs\<rparr>, save_local fs (index_path self) vs))
              else Inr (self, fs))))"

text \<open>The constructor \<open>LongTermMemory(index_path)\<close>.\<close>

definition new_LongTermMemory ::
  "env \<Rightarrow> string \<Rightarrow> filesystem \<Rightarrow> error + (LongTermMemory \<times> filesystem)" where
  "new_LongTermMemory E path fs =
     load_or_create E \<lparr>index_path = path, vectorstore = None\<rparr> fs"

definition search :: "env \<Rightarrow> LongTermMemory \<Rightarrow> string \<Rightarrow> int \<Rightarrow> error + string list" where
  "search E self query top_k =
     (case vectorstore self of
        None \<Rightarrow> Inr []
      | Some vs \<Rightarrow>
          (case similarity_search E vs query top_k of
             Inl e \<Rightarrow> Inl e
           | Inr results \<Rightarrow> Inr (map page_content results)))"

definition conversation_document :: "string \<Rightarrow> string \<Rightarrow> document" where
  "conversation_document fact_text topic =
     \<lparr>page_content = fact_text, metadata = [(''topic'', topic), (''source'', ''conversation'')]\<rparr>"

definition add_memory ::
  "env \<Rightarrow> LongTermMemory \<Rightarrow> filesystem \<Rightarrow> string \<Rightarrow> string \<Rightarrow>
   error + (LongTermMemory \<times> filesystem)" where
  "add_memory E self fs fact_text topic =
     (let doc = conversation_document fact_text topic in
      case (case vectorstore self of
              Some vs \<Rightarrow> add_documents E vs [doc]
            | None \<Rightarrow> from_documents E [doc]) of
        Inl e \<Rightarrow> Inl e
      | Inr vs' \<Rightarrow> Inr (self\<lparr>vectorstore := Some vs'\<rparr>, save_local fs (index_path self) vs'))"

definition get_all_count :: "LongTermMemory \<Rightarrow> nat" where
  "get_all_count self = (case vectorstore self of None \<Rightarrow> 0 | Some vs \<Rightarrow> length vs)"

subsection \<open>The agent state and the singletons of graph.py\<close>

record AgentState =
  messages :: "message list"
  retrieved_memories :: "string list"
  should_extract_memory :: bool

text \<open>
  What a node returns: a dictionary holding some of the keys. LangGraph merges it into the
  state: the \<open>messages\<close> key through the \<open>add_messages\<close> reducer, which appends, the other
  keys by overwriting.
\<close>

record update =
  upd_messages :: "message list"
  upd_retrieved_memories :: "string list option"
  upd_should_extract_memory :: "bool option"

definition no_update :: update where
  "no_update = \<lparr>upd_messages = [], upd_retrieved_memories = None,
                 upd_should_extract_memory = None\<rparr>"

definition apply_update :: "AgentState \<Rightarrow> update \<Rightarrow> AgentState" where
  "apply_update st u =
     \<lparr>messages = messages st @ upd_messages u,
      retrieved_memories = case_option (retrieved_memories st) id (upd_retrieved_memories u),
      should_extract_memory = case_option (should_extract_memory st) id (upd_should_extract_memory u)\<rparr>"

text \<open>
  The mutable world of the process: the module-level singleton \<open>_long_term_memory\<close> and the
  file system.
\<close>

record world =
  long_term_memory :: "LongTermMemory option"
  files :: filesystem

text \<open>\<open>_get_memory\<close>: builds the singleton on first use.\<close>

definition get_memory :: "env \<Rightarrow> world \<Rightarrow> error + (LongTermMemory \<times> world)" where
  "get_memory E w =
     (case long_term_memory w of
        Some m \<Rightarrow> Inr (m, w)
      | None \<Rightarrow>
          (case new_LongTermMemory E (FAISS_INDEX_PATH E) (files w) of
             Inl e \<Rightarrow> Inl e
           | Inr (m, fs) \<Rightarrow> Inr (m, \<lparr>long_term_memory = Some m, files = fs\<rparr>)))"

subsection \<open>Node 1: retrieve_memories\<close>

text \<open>The content of the last human message, \<open>""\<close> when there is none.\<close>

fun last_human_of :: "message list \<Rightarrow> string" where
  "last_human_of [] = []"
| "last_human_of (HumanMessage c # ms) = c"
| "last_human_of (m # ms) = last_human_of ms"

definition retrieve_memories :: "env \<Rightarrow> AgentState \<Rightarrow> world \<Rightarrow> (error + update) \<times> world" where
  "retrieve_memories E st w =
     (let last_human = last_human_of (rev (messages st)) in
      if last_human = [] then (Inr (no_update\<lparr>upd_retrieved_memories := Some []\<rparr>), w)
      else
        (case get_memory E w of
           Inl e \<Rightarrow> (Inl e, w)
         | Inr (memory, w') \<Rightarrow>
             (case search E memory last_human (LONG_TERM_TOP_K E) of
                Inl e \<Rightarrow> (Inl e, w')
              | Inr results \<Rightarrow> (Inr (no_update\<lparr>upd_retrieved_memories := Some results\<rparr>), w'))))"

subsection \<open>Node 2: generate_response\<close>

text \<open>Python's \<open>sep.join(xs)\<close>.\<close>

fun join :: "string \<Rightarrow> string list \<Rightarrow> string" where
  "join sep [] = []"
| "join sep [x] = x"
| "join sep (x # y # ys) = x @ sep @ join sep (y # ys)"

text \<open>
  Python's \<open>xs[i:]\<close>: a negative start counts from the end, and the start is clipped to the
  list.
\<close>

definition slice_from :: "int \<Rightarrow> 'a list \<Rightarrow> 'a list" where
  "slice_from i xs =
     (let n = int (length xs);
          start = (if i < 0 then max (n + i) 0 else min i n)
      in drop (nat start) xs)"

text \<open>The short-term window: lines 104 to 110 of \<open>generate_response\<close>.\<close>

definition windowed :: "env \<Rightarrow> message list \<Rightarrow> message list" where
  "windowed E conversation =
     (let max_msgs = SHORT_TERM_WINDOW E * 2 in
      if int (length conversation) > max_msgs then slice_from (- max_msgs) conversation
      else conversation)"

definition full_system :: "env \<Rightarrow> string list \<Rightarrow> string" where
  "full_system E retrieved =
     (if retrieved \<noteq> [] then
        system_prompt E @ memory_header E @ join [CHR 0x0A] (map (\<lambda>m. ''- '' @ m) retrieved)
      else system_prompt E)"

definition prompt_messages :: "env \<Rightarrow> AgentState \<Rightarrow> message list" where
  "prompt_messages E st =
     [SystemMessage (full_system E (retrieved_memories st))]
       @ fewshot_messages E @ windowed E (messages st)"

definition generate_response :: "env \<Rightarrow> AgentState \<Rightarrow> error + update" where
  "generate_response E st =
     (case llm_invoke E (prompt_messages E st) of
        Inl e \<Rightarrow> Inl e
      | Inr response \<Rightarrow>
          Inr \<lparr>upd_messages = [AIMessage response], upd_retrieved_memories = None,
               upd_should_extract_memory = Some True\<rparr>)"

subsection \<open>Node 3: extract_memory\<close>

text \<open>
  Python's \<open>str.strip()\<close>: the white space of the code points below 256.
\<close>

definition is_space :: "char \<Rightarrow> bool" where
  "is_space c =
     (c \<in> set [CHR 0x09, CHR 0x0A, CHR 0x0B, CHR 0x0C, CHR 0x0D, CHR 0x1C, CHR 0x1D,
                CHR 0x1E, CHR 0x1F, CHR 0x20, CHR 0x85, CHR 0xA0])"

definition strip :: "string \<Rightarrow> string" where
  "strip s = rev (dropWhile is_space (rev (dropWhile is_space s)))"

definition fence :: string where
  "fence = [CHR 0x60, CHR 0x60, CHR 0x60]"

text \<open>\<open>s.split("\n", 1)[-1]\<close>: what follows the first newline, or all of \<open>s\<close> without one.\<close>

definition after_first_newline :: "string \<Rightarrow> string" where
  "after_first_newline s =
     (case dropWhile (\<lambda>c. c \<noteq> CHR 0x0A) s of [] \<Rightarrow> s | c # rest \<Rightarrow> rest)"

text \<open>
  \<open>s.rsplit(fence, 1)[0]\<close>: what precedes the last occurrence of the fence, or all of \<open>s\<close>
  without one. \<open>rfind_fence\<close> returns the prefix before the rightmost occurrence.
\<close>

fun rfind_fence :: "string \<Rightarrow> string option" where
  "rfind_fence [] = None"
| "rfind_fence (c # cs) =
     (case rfind_fence cs of
        Some p \<Rightarrow> Some (c # p)
      | None \<Rightarrow> (if take 3 (c # cs) = fence then Some [] else None))"

definition before_last_fence :: "string \<Rightarrow> string" where
  "before_last_fence s = (case rfind_fence s of None \<Rightarrow> s | Some p \<Rightarrow> p)"

text \<open>Lines 162 to 168: the content that is given to \<open>json.loads\<close>.\<close>

definition unwrap_content :: "string \<Rightarrow> string" where
  "unwrap_content raw =
     (let content = strip raw in
      if take 3 content = fence then strip (before_last_fence (after_first_newline content))
      else content)"

text \<open>
  The loop that finds the last exchange, over the reversed messages, with the two
  variables \<open>last_human\<close> and \<open>last_ai\<close>.
\<close>

fun last_exchange :: "message list \<Rightarrow> string \<Rightarrow> string \<Rightarrow> string \<times> string" where
  "last_exchange [] last_human last_ai = (last_human, last_ai)"
| "last_exchange (msg # ms) last_human last_ai =
     (let (h, a) =
        (case msg of
           AIMessage c \<Rightarrow> (if last_ai = [] then (last_human, c) else (last_human, last_ai))
         | HumanMessage c \<Rightarrow> (if last_human = [] then (c, last_ai) else (last_human, last_ai))
         | SystemMessage c \<Rightarrow> (last_human, last_ai))
      in if h \<noteq> [] \<and> a \<noteq> [] then (h, a) else last_exchange ms h a)"

text \<open>
  The loop over the parsed facts: a string longer than 5 characters is added. The first
  \<open>add_memory\<close> that raises ends the loop; what was added before stays.
\<close>

fun add_facts ::
  "env \<Rightarrow> LongTermMemory \<Rightarrow> filesystem \<Rightarrow> json list \<Rightarrow>
   error option \<times> LongTermMemory \<times> filesystem" where
  "add_facts E memory fs [] = (None, memory, fs)"
| "add_facts E memory fs (JString f # rest) =
     (if length f > 5 then
        (case add_memory E memory fs f [] of
           Inl e \<Rightarrow> (Some e, memory, fs)
         | Inr (memory', fs') \<Rightarrow> add_facts E memory' fs' rest)
      else add_facts E memory fs rest)"
| "add_facts E memory fs (j # rest) = add_facts E memory fs rest"

definition extract_prompt :: "env \<Rightarrow> string \<Rightarrow> string \<Rightarrow> message list" where
  "extract_prompt E last_human last_ai =
     [SystemMessage (extract_instruction E),
      HumanMessage (user_label E @ last_human @ [CHR 0x0A] @ ''Raymond: '' @ last_ai)]"

text \<open>
  The statements of the \<open>try\<close> block that follow \<open>import json\<close> (lines 166 to 176): the
  error they end with, if any, and the world they leave. The singleton is mutated in place
  by \<open>add_memory\<close>.
\<close>

definition extract_body :: "env \<Rightarrow> string \<Rightarrow> world \<Rightarrow> error option \<times> world" where
  "extract_body E result w =
     (case json_loads E (unwrap_content result) of
        Inl e \<Rightarrow> (Some e, w)
      | Inr (JArray facts) \<Rightarrow>
          (case get_memory E w of
             Inl e \<Rightarrow> (Some e, w)
           | Inr (memory, w') \<Rightarrow>
               (case add_facts E memory (files w') facts of
                  (err, memory', fs') \<Rightarrow>
                    (err, \<lparr>long_term_memory = Some memory', files = fs'\<rparr>)))
      | Inr other \<Rightarrow> (None, w))"

text \<open>
  The \<open>try\<close> statement with its handler \<open>except (json.JSONDecodeError, Exception): pass\<close>:
  the error that leaves the statement, if any, and the world. The name \<open>json\<close> is local to
  \<open>extract_memory\<close>: it is bound by the \<open>import json\<close> inside the \<open>try\<close> block (line 166),
  and the module has no import of its own. When \<open>llm.invoke\<close> (line 162) raises, the name
  is not bound yet, so evaluating the handler's tuple raises \<open>UnboundLocalError\<close>, which
  leaves the function. An error raised after the import is matched by the handler and
  passed.
\<close>

definition extract_try :: "env \<Rightarrow> string \<Rightarrow> string \<Rightarrow> world \<Rightarrow> error option \<times> world" where
  "extract_try E last_human last_ai w =
     (case llm_invoke E (extract_prompt E last_human last_ai) of
        Inl e \<Rightarrow> (Some UnboundLocalError, w)
      | Inr result \<Rightarrow> (None, snd (extract_body E result w)))"

text \<open>
  \<open>extract_memory\<close>: the update it returns, or the error that leaves it, and the world.
\<close>

definition extract_memory :: "env \<Rightarrow> AgentState \<Rightarrow> world \<Rightarrow> (error + update) \<times> world" where
  "extract_memory E st w =
     (if \<not> should_extract_memory st then (Inr no_update, w)
      else if length (messages st) < 2 then
        (Inr (no_update\<lparr>upd_should_extract_memory := Some False\<rparr>), w)
      else
        (case last_exchange (rev (messages st)) [] [] of
           (last_human, last_ai) \<Rightarrow>
             if last_human = [] \<or> last_ai = [] then
               (Inr (no_update\<lparr>upd_should_extract_memory := Some False\<rparr>), w)
             else
               (case extract_try E last_human last_ai w of
                  (Some e, w') \<Rightarrow> (Inl e, w')
                | (None, w') \<Rightarrow>
                    (Inr (no_update\<lparr>upd_should_extract_memory := Some False\<rparr>), w'))))"

subsection \<open>The compiled graph\<close>

text \<open>
  \<open>create_agent().invoke(state)\<close>: the three nodes in a row, each update merged into the
  state. An error of a node ends the run; the world keeps what was done before it.
\<close>

definition agent_invoke :: "env \<Rightarrow> AgentState \<Rightarrow> world \<Rightarrow> (error + AgentState) \<times> world" where
  "agent_invoke E st w =
     (case retrieve_memories E st w of
        (Inl e, w1) \<Rightarrow> (Inl e, w1)
      | (Inr u1, w1) \<Rightarrow>
          (let st1 = apply_update st u1 in
           case generate_response E st1 of
             Inl e \<Rightarrow> (Inl e, w1)
           | Inr u2 \<Rightarrow>
               (let st2 = apply_update st1 u2 in
                case extract_memory E st2 w1 of
                  (Inl e, w3) \<Rightarrow> (Inl e, w3)
                | (Inr u3, w3) \<Rightarrow> (Inr (apply_update st2 u3), w3))))"

subsection \<open>Concrete providers and inputs\<close>

text \<open>An embedding that succeeds on every text: the one-dimensional vector of its length.\<close>

definition length_embed :: "string \<Rightarrow> error + vector" where
  "length_embed s = Inr [real (length s)]"


definition quoted :: "string \<Rightarrow> string" where
  "quoted s = [CHR 0x22] @ s @ [CHR 0x22]"

definition idle_env :: env where
  "idle_env =
     \<lparr>embed = length_embed,
      llm_invoke = (\<lambda>msgs. Inr ''ok''),
      json_loads = (\<lambda>s. Inl JSONDecodeError),
      SHORT_TERM_WINDOW = 20,
      LONG_TERM_TOP_K = 5,
      FAISS_INDEX_PATH = ''raymond_memory_index'',
      system_prompt = ''persona'',
      fewshot_messages = [],
      memory_header = ''[memories]'',
      extract_instruction = ''extract'',
      user_label = ''user: ''\<rparr>"

definition no_files :: filesystem where
  "no_files = \<lparr>index_files = Map.empty, memories_file = None\<rparr>"

definition blank_memory :: LongTermMemory where
  "blank_memory = \<lparr>index_path = ''raymond_memory_index'', vectorstore = None\<rparr>"

definition empty_seed_files :: filesystem where
  "empty_seed_files = \<lparr>index_files = Map.empty, memories_file = Some (Some [])\<rparr>"

definition tea_seed :: seed where
  "tea_seed = \<lparr>seed_fact = Some ''likes tea'', seed_topic = None, seed_confidence = None\<rparr>"

definition tea_seed_files :: filesystem where
  "tea_seed_files = \<lparr>index_files = Map.empty, memories_file = Some (Some [tea_seed])\<rparr>"

definition tea_document :: document where
  "tea_document =
     \<lparr>page_content = ''likes tea'',
      metadata = [(''topic'', []), (''confidence'', ''medium''), (''source'', ''initial'')]\<rparr>"

text \<open>
  The scenario of the round trip, in the spec's words: \<open>add(f)\<close>, then a fresh store
  constructed on the same path, then \<open>search(f, 1)\<close> on the fresh store.
\<close>

definition restart_after_add ::
  "env \<Rightarrow> LongTermMemory \<Rightarrow> filesystem \<Rightarrow> string \<Rightarrow> error + (LongTermMemory \<times> filesystem)" where
  "restart_after_add E self fs f =
     (case add_memory E self fs f [] of
        Inl e \<Rightarrow> Inl e
      | Inr (self', fs') \<Rightarrow> new_LongTermMemory E (index_path self) fs')"

definition search_after_restart ::
  "env \<Rightarrow> LongTermMemory \<Rightarrow> filesystem \<Rightarrow> string \<Rightarrow> error + string list" where
  "search_after_restart E self fs f =
     (case restart_after_add E self fs f of
        Inl e \<Rightarrow> Inl e
      | Inr (fresh, fs') \<Rightarrow> search E fresh f 1)"

text \<open>A store that holds the fact \<open>ab\<close>, saved at the index path.\<close>

definition ab_store :: faiss where
  "ab_store = [([2], conversation_document ''ab'' [])]"

definition ab_memory :: LongTermMemory where
  "ab_memory = \<lparr>index_path = ''raymond_memory_index'', vectorstore = Some ab_store\<rparr>"

definition ab_files :: filesystem where
  "ab_files =
     \<lparr>index_files = [''raymond_memory_index'' \<mapsto> Index ab_store], memories_file = None\<rparr>"

text \<open>A store of three records at distances 4, 0 and 1 of the query \<open>abc\<close>.\<close>

definition three_store :: faiss where
  "three_store =
     [([5], conversation_document ''hello'' []),
      ([3], conversation_document ''cat'' []),
      ([4], conversation_document ''mice'' [])]"

definition three_memory :: LongTermMemory where
  "three_memory = \<lparr>index_path = ''raymond_memory_index'', vectorstore = Some three_store\<rparr>"

text \<open>A conversation of one user turn, a process that has not built its memory yet.\<close>

definition hi_state :: AgentState where
  "hi_state =
     \<lparr>messages = [HumanMessage ''hi''], retrieved_memories = [], should_extract_memory = False\<rparr>"

definition fresh_world :: world where
  "fresh_world = \<lparr>long_term_memory = None, files = no_files\<rparr>"


text \<open>The configuration \<open>RAYMOND_SHORT_TERM_WINDOW=0\<close>, and one whose embedding backend is down.\<close>

definition zero_window_env :: env where
  "zero_window_env = idle_env\<lparr>SHORT_TERM_WINDOW := 0\<rparr>"



definition ok_update :: update where
  "ok_update =
     \<lparr>upd_messages = [AIMessage ''ok''], upd_retrieved_memories = None,
      upd_should_extract_memory = Some True\<rparr>"

definition done_state :: AgentState where
  "done_state =
     \<lparr>messages = [HumanMessage ''hi'', AIMessage ''ok''], retrieved_memories = [],
      should_extract_memory = False\<rparr>"

definition done_world :: world where
  "done_world = \<lparr>long_term_memory = Some blank_memory, files = no_files\<rparr>"



text \<open>
  In the spec's words: the facts of the returned array that are accepted (the strings
  longer than 5 characters), and the writing of a list of facts by one \<open>add\<close> call each, in
  order, a call that raises ending the sequence.
\<close>

fun accepted_facts :: "json list \<Rightarrow> string list" where
  "accepted_facts [] = []"
| "accepted_facts (JString f # rest) =
     (if 5 < length f then f # accepted_facts rest else accepted_facts rest)"
| "accepted_facts (j # rest) = accepted_facts rest"

fun add_each ::
  "env \<Rightarrow> LongTermMemory \<Rightarrow> filesystem \<Rightarrow> string list \<Rightarrow>
   error option \<times> LongTermMemory \<times> filesystem" where
  "add_each E memory fs [] = (None, memory, fs)"
| "add_each E memory fs (f # rest) =
     (case add_memory E memory fs f [] of
        Inl e \<Rightarrow> (Some e, memory, fs)
      | Inr (memory', fs') \<Rightarrow> add_each E memory' fs' rest)"

text \<open>The records of a store, none when it is uninitialised.\<close>

definition records :: "LongTermMemory \<Rightarrow> faiss" where
  "records memory = (case vectorstore memory of None \<Rightarrow> [] | Some vs \<Rightarrow> vs)"

text \<open>The state after the exchange \<open>hi\<close> / \<open>ok\<close>, entering the extracting phase.\<close>

definition exchange_state :: AgentState where
  "exchange_state = done_state\<lparr>should_extract_memory := True\<rparr>"

text \<open>An extraction provider that answers with a fixed array of four elements.\<close>

definition mixed_items :: "json list" where
  "mixed_items = [JString ''user likes coffee'', JString ''hi'', JNumber 7, JString ''has a cat'']"

definition mixed_text :: string where
  "mixed_text = ''['' @ quoted ''user likes coffee'' @ '', '' @ quoted ''hi'' @ '', 7, ''
                  @ quoted ''has a cat'' @ '']''"

definition mixed_json_loads :: "string \<Rightarrow> error + json" where
  "mixed_json_loads s = (if s = mixed_text then Inr (JArray mixed_items) else Inl JSONDecodeError)"

definition mixed_env :: env where
  "mixed_env = idle_env\<lparr>llm_invoke := (\<lambda>msgs. Inr mixed_text), json_loads := mixed_json_loads\<rparr>"

definition coffee_cat_store :: faiss where
  "coffee_cat_store =
     [([17], conversation_document ''user likes coffee'' []),
      ([9], conversation_document ''has a cat'' [])]"

text \<open>
  Answers of the extraction provider: two arrays wrapped in a fenced block with a language
  tag, an object, and the texts inside the fences.
\<close>

definition hi_array_text :: string where
  "hi_array_text = ''['' @ quoted ''hi'' @ '']''"

definition coffee_array_text :: string where
  "coffee_array_text = ''['' @ quoted ''user likes coffee'' @ '']''"

definition fenced :: "string \<Rightarrow> string" where
  "fenced body = fence @ ''json'' @ [CHR 0x0A] @ body @ [CHR 0x0A] @ fence"

text \<open>
  \<open>json.loads\<close> on the texts used below: the two arrays, the empty array and the empty
  object; the other texts used below (\<open>ok\<close>, and an array cut short) are not JSON.
\<close>

definition small_json_loads :: "string \<Rightarrow> error + json" where
  "small_json_loads s =
     (if s = hi_array_text then Inr (JArray [JString ''hi''])
      else if s = coffee_array_text then Inr (JArray [JString ''user likes coffee''])
      else if s = ''[]'' then Inr (JArray [])
      else if s = ''{}'' then Inr (JObject [])
      else Inl JSONDecodeError)"

definition coffee_extractor_env :: env where
  "coffee_extractor_env =
     idle_env\<lparr>llm_invoke := (\<lambda>msgs. Inr (fenced coffee_array_text)),
               json_loads := small_json_loads\<rparr>"

definition object_extractor_env :: env where
  "object_extractor_env =
     idle_env\<lparr>llm_invoke := (\<lambda>msgs. Inr ''{}''), json_loads := small_json_loads\<rparr>"

definition truncated_extractor_env :: env where
  "truncated_extractor_env =
     idle_env\<lparr>llm_invoke := (\<lambda>msgs. Inr (''['' @ quoted ''user likes'')),
               json_loads := small_json_loads\<rparr>"

definition silent_env :: env where
  "silent_env = idle_env\<lparr>llm_invoke := (\<lambda>msgs. Inl GenerationFailed)\<rparr>"

text \<open>
  A chat model that answers the conversation and fails on the extraction prompt, which is
  the one that begins with the extraction instruction.
\<close>

definition answers_then_fails :: "message list \<Rightarrow> error + string" where
  "answers_then_fails msgs =
     (case msgs of
        SystemMessage s # rest \<Rightarrow> (if s = ''extract'' then Inl GenerationFailed else Inr ''ok'')
      | _ \<Rightarrow> Inr ''ok'')"

definition flaky_env :: env where
  "flaky_env = idle_env\<lparr>llm_invoke := answers_then_fails\<rparr>"

section \<open>Properties\<close>

subsection \<open>Adding a memory\<close>

lemma page_content_conversation_document [simp]:
  "page_content (conversation_document f topic) = f"
  by (simp add: conversation_document_def)

lemma add_memory_ok:
  assumes "embed E f = Inr v"
  shows "add_memory E self fs f topic =
           Inr (self\<lparr>vectorstore := Some (case_option [] id (vectorstore self) @ [(v, conversation_document f topic)])\<rparr>,
                save_local fs (index_path self)
                  (case_option [] id (vectorstore self) @ [(v, conversation_document f topic)]))"
  using assms
  by (simp add: add_memory_def add_documents_def from_documents_def Let_def
           split: option.splits)

text \<open>
  Claim C7. When the embedding of the fact succeeds, \<open>add_memory\<close> appends one new record
  (the embedded fact) to the store and saves the whole store at the index path before it
  returns; the count grows by one. It never looks for an equal fact: adding the same fact
  again gives a second record beside the first, saved as well, and the count has grown by
  two.
\<close>

theorem add_memory_appends_and_persists:
  assumes "embed E f = Inr v"
  shows "\<exists>self' fs'.
           add_memory E self fs f topic = Inr (self', fs') \<and>
           index_path self' = index_path self \<and>
           vectorstore self' =
             Some (case_option [] id (vectorstore self) @ [(v, conversation_document f topic)]) \<and>
           index_files fs' (index_path self) =
             Some (Index (case_option [] id (vectorstore self) @ [(v, conversation_document f topic)])) \<and>
           get_all_count self' = get_all_count self + 1 \<and>
           (\<exists>self'' fs''.
              add_memory E self' fs' f topic = Inr (self'', fs'') \<and>
              vectorstore self'' =
                Some (case_option [] id (vectorstore self)
                        @ [(v, conversation_document f topic), (v, conversation_document f topic)]) \<and>
              index_files fs'' (index_path self) = map_option Index (vectorstore self'') \<and>
              get_all_count self'' = get_all_count self + 2)"
  using assms
  by (simp add: add_memory_ok save_local_def get_all_count_def split: option.splits)

theorem add_memory_appends_and_persists_witness:
  "embed idle_env ''user likes coffee'' = Inr [17] \<and>
   (\<exists>self' fs'.
      add_memory idle_env blank_memory no_files ''user likes coffee'' [] = Inr (self', fs') \<and>
      get_all_count self' = 1 \<and>
      (\<exists>self'' fs''.
         add_memory idle_env self' fs' ''user likes coffee'' [] = Inr (self'', fs'') \<and>
         get_all_count self'' = 2))"
proof -
  have e: "embed idle_env ''user likes coffee'' = Inr [17]"
    by (simp add: idle_env_def length_embed_def)
  show ?thesis
    using e add_memory_appends_and_persists [OF e, of blank_memory no_files "[]"]
    by (auto simp: get_all_count_def blank_memory_def)
qed

text \<open>
  Claim C10. On a store that was never initialised (\<open>vectorstore\<close> is \<open>None\<close>) the count is
  0, and \<open>add_memory\<close> does not fail when the embedding succeeds: it creates a store
  holding exactly the new record, saves it at the index path, and the count is then 1.
\<close>

theorem add_memory_on_uninitialized:
  assumes "vectorstore self = None" and "embed E f = Inr v"
  shows "get_all_count self = 0 \<and>
         (\<exists>self' fs'.
            add_memory E self fs f topic = Inr (self', fs') \<and>
            vectorstore self' = Some [(v, conversation_document f topic)] \<and>
            index_files fs' (index_path self) = Some (Index [(v, conversation_document f topic)]) \<and>
            get_all_count self' = 1)"
  using assms
  by (simp add: add_memory_ok save_local_def get_all_count_def)

theorem add_memory_on_uninitialized_witness:
  "vectorstore blank_memory = None \<and>
   embed idle_env ''my cat is named Mochi'' = Inr [21] \<and>
   get_all_count blank_memory = 0 \<and>
   (\<exists>self' fs'.
      add_memory idle_env blank_memory no_files ''my cat is named Mochi'' [] = Inr (self', fs') \<and>
      get_all_count self' = 1)"
proof -
  have s: "vectorstore blank_memory = None"
    by (simp add: blank_memory_def)
  have e: "embed idle_env ''my cat is named Mochi'' = Inr [21]"
    by (simp add: idle_env_def length_embed_def)
  show ?thesis
    using s e add_memory_on_uninitialized [OF s e, of no_files "[]"]
    by auto
qed

subsection \<open>Loading or creating the store\<close>

lemma embed_documents_docs:
  "embed_documents E docs = Inr vs \<Longrightarrow> map snd vs = docs"
  by (induction docs arbitrary: vs) (auto split: sum.splits)

lemma seed_documents_facts:
  "seed_documents ms = Inr ds \<Longrightarrow> map (\<lambda>d. Some (page_content d)) ds = map seed_fact ms"
  by (induction ms arbitrary: ds) (auto split: sum.splits option.splits)

text \<open>
  Claim C2, as stated, fails: with no index at the path and an empty seed collection the
  constructor builds no store and saves nothing, so no persisted store exists afterwards.
\<close>

theorem load_or_create_empty_seed_counterexample:
  "new_LongTermMemory idle_env ''raymond_memory_index'' empty_seed_files
     = Inr (blank_memory, empty_seed_files) \<and>
   index_files empty_seed_files ''raymond_memory_index'' = None"
  by (simp add: new_LongTermMemory_def load_or_create_def load_initial_memories_def
        empty_seed_files_def blank_memory_def)

text \<open>
  Claim C2, amended. When no index exists at the path, \<open>_load_or_create\<close> looks at the seed
  documents. If there are none (the seed file is missing, or its collection is empty) the
  store stays uninitialised and nothing is written. If there are some and their embedding
  succeeds, the store is built from exactly these documents, one record per seed fact, and
  saved at once, so that a persisted index exists at the path.
\<close>

theorem load_or_create_without_index:
  assumes "index_files fs (index_path self) = None"
      and "load_initial_memories fs = Inr docs"
  shows "(docs = [] \<longrightarrow> load_or_create E self fs = Inr (self, fs)) \<and>
         (docs \<noteq> [] \<longrightarrow> embed_documents E docs = Inr vs \<longrightarrow>
            load_or_create E self fs =
              Inr (self\<lparr>vectorstore := Some vs\<rparr>, save_local fs (index_path self) vs) \<and>
            index_files (save_local fs (index_path self) vs) (index_path self) = Some (Index vs) \<and>
            map snd vs = docs) \<and>
         (memories_file fs = Some (Some seeds) \<longrightarrow>
            map (\<lambda>d. Some (page_content d)) docs = map seed_fact seeds)"
proof (intro conjI impI)
  assume "docs = []"
  with assms show "load_or_create E self fs = Inr (self, fs)"
    by (simp add: load_or_create_def)
next
  assume ne: "docs \<noteq> []" and emb: "embed_documents E docs = Inr vs"
  from emb have m: "map snd vs = docs" by (rule embed_documents_docs)
  with ne have "vs \<noteq> []" by auto
  with assms ne emb
  show "load_or_create E self fs =
          Inr (self\<lparr>vectorstore := Some vs\<rparr>, save_local fs (index_path self) vs)"
    by (simp add: load_or_create_def from_documents_def)
  show "index_files (save_local fs (index_path self) vs) (index_path self) = Some (Index vs)"
    by (simp add: save_local_def)
  show "map snd vs = docs" by (rule m)
next
  assume "memories_file fs = Some (Some seeds)"
  with assms(2) show "map (\<lambda>d. Some (page_content d)) docs = map seed_fact seeds"
    by (simp add: load_initial_memories_def seed_documents_facts)
qed

theorem load_or_create_without_index_witness:
  "index_files tea_seed_files (index_path blank_memory) = None \<and>
   load_initial_memories tea_seed_files = Inr [tea_document] \<and>
   embed_documents idle_env [tea_document] = Inr [([9], tea_document)] \<and>
   load_or_create idle_env blank_memory tea_seed_files =
     Inr (blank_memory\<lparr>vectorstore := Some [([9], tea_document)]\<rparr>,
          save_local tea_seed_files (index_path blank_memory) [([9], tea_document)]) \<and>
   index_files (save_local tea_seed_files (index_path blank_memory) [([9], tea_document)])
     (index_path blank_memory) = Some (Index [([9], tea_document)]) \<and>
   load_initial_memories empty_seed_files = Inr [] \<and>
   load_or_create idle_env blank_memory empty_seed_files = Inr (blank_memory, empty_seed_files)"
proof -
  have a: "index_files tea_seed_files (index_path blank_memory) = None"
    by (simp add: tea_seed_files_def)
  have b: "load_initial_memories tea_seed_files = Inr [tea_document]"
    by (simp add: load_initial_memories_def tea_seed_files_def tea_seed_def tea_document_def)
  have c: "embed_documents idle_env [tea_document] = Inr [([9], tea_document)]"
    by (simp add: idle_env_def length_embed_def tea_document_def)
  have a': "index_files empty_seed_files (index_path blank_memory) = None"
    by (simp add: empty_seed_files_def)
  have b': "load_initial_memories empty_seed_files = Inr []"
    by (simp add: load_initial_memories_def empty_seed_files_def)
  show ?thesis
    using a b c b'
      load_or_create_without_index [OF a b, of idle_env "[([9], tea_document)]" "[tea_seed]"]
      load_or_create_without_index [OF a' b', of idle_env "[]" "[]"]
    by simp
qed

subsection \<open>Searching the store\<close>

lemma l2_distance_nonneg: "0 \<le> l2_distance u v"
  unfolding l2_distance_def by (rule sum_list_nonneg) auto

lemma l2_distance_self: "l2_distance v v = 0"
  by (simp add: l2_distance_def zip_same_conv_map comp_def)

lemma search_uninitialized: "vectorstore self = None \<Longrightarrow> search E self query k = Inr []"
  by (simp add: search_def)

lemma search_initialized:
  "vectorstore self = Some vs \<Longrightarrow> embed E query = Inr q \<Longrightarrow>
   search E self query k =
     Inr (map (page_content \<circ> snd) (take (nat k) (sort_key (\<lambda>r. l2_distance q (fst r)) vs)))"
  by (simp add: search_def similarity_search_def)


lemma sorted_split:
  fixes f :: "'a \<Rightarrow> real"
  assumes "sorted (map f xs)"
  shows "sorted (map f (take n xs)) \<and> (\<forall>r\<in>set (take n xs). \<forall>s\<in>set (drop n xs). f r \<le> f s)"
proof -
  have "sorted (map f (take n xs) @ map f (drop n xs))"
    using assms by (simp flip: map_append)
  then show ?thesis
    by (auto simp: sorted_append)
qed

text \<open>
  Claim C4. On an uninitialised store \<open>search\<close> returns the empty list, whatever the query.
  On a store of \<open>n\<close> records, for \<open>k \<ge> 0\<close> and a query whose embedding succeeds, it returns
  the facts of exactly \<open>min k n\<close> records of the store (so at most \<open>k\<close>, and none on an empty
  one), each record taken once, in ascending order of distance to the query, and no record
  left out is nearer than one returned.
\<close>

theorem search_most_similar_first:
  "(vectorstore self = None \<longrightarrow> search E self query k = Inr []) \<and>
   (vectorstore self = Some vs \<longrightarrow> embed E query = Inr q \<longrightarrow> 0 \<le> k \<longrightarrow>
      (\<exists>ranked rest.
         search E self query k = Inr (map (page_content \<circ> snd) ranked) \<and>
         int (length ranked) = min k (int (length vs)) \<and>
         mset (ranked @ rest) = mset vs \<and>
         set ranked \<subseteq> set vs \<and>
         sorted (map (\<lambda>r. l2_distance q (fst r)) ranked) \<and>
         (\<forall>r\<in>set ranked. \<forall>s\<in>set rest. l2_distance q (fst r) \<le> l2_distance q (fst s))))"
proof (intro conjI impI)
  assume "vectorstore self = None"
  then show "search E self query k = Inr []" by (rule search_uninitialized)
next
  let ?f = "\<lambda>r. l2_distance q (fst r)"
  let ?S = "sort_key ?f vs"
  assume vs: "vectorstore self = Some vs" and q: "embed E query = Inr q" and k: "0 \<le> k"
  have 1: "search E self query k = Inr (map (page_content \<circ> snd) (take (nat k) ?S))"
    using vs q by (rule search_initialized)
  have 2: "int (length (take (nat k) ?S)) = min k (int (length vs))"
    using k by (cases "nat k \<le> length vs") auto
  have 3: "mset (take (nat k) ?S @ drop (nat k) ?S) = mset vs"
    by simp
  have 4: "set (take (nat k) ?S) \<subseteq> set vs"
    using set_take_subset [of "nat k" ?S] by simp
  have "sorted (map ?f ?S)" by simp
  then have 5: "sorted (map ?f (take (nat k) ?S)) \<and>
      (\<forall>r\<in>set (take (nat k) ?S). \<forall>s\<in>set (drop (nat k) ?S). ?f r \<le> ?f s)"
    by (rule sorted_split)
  from 1 2 3 4 5
  show "\<exists>ranked rest.
         search E self query k = Inr (map (page_content \<circ> snd) ranked) \<and>
         int (length ranked) = min k (int (length vs)) \<and>
         mset (ranked @ rest) = mset vs \<and>
         set ranked \<subseteq> set vs \<and>
         sorted (map ?f ranked) \<and>
         (\<forall>r\<in>set ranked. \<forall>s\<in>set rest. ?f r \<le> ?f s)"
    by blast
qed

theorem search_most_similar_first_witness:
  "vectorstore blank_memory = None \<and>
   search idle_env blank_memory ''abc'' 2 = Inr [] \<and>
   vectorstore three_memory = Some three_store \<and>
   embed idle_env ''abc'' = Inr [3] \<and>
   search idle_env three_memory ''abc'' 2 = Inr [''cat'', ''mice''] \<and>
   (\<exists>ranked rest.
      search idle_env three_memory ''abc'' 2 = Inr (map (page_content \<circ> snd) ranked) \<and>
      int (length ranked) = min 2 (int (length three_store)) \<and>
      mset (ranked @ rest) = mset three_store \<and>
      sorted (map (\<lambda>r. l2_distance [3] (fst r)) ranked))"
proof -
  have a: "vectorstore blank_memory = None" by (simp add: blank_memory_def)
  have b: "vectorstore three_memory = Some three_store" by (simp add: three_memory_def)
  have c: "embed idle_env ''abc'' = Inr [3]" by (simp add: idle_env_def length_embed_def)
  have d: "search idle_env three_memory ''abc'' 2 = Inr [''cat'', ''mice'']"
    by (simp add: search_initialized [OF b c] three_store_def l2_distance_def
          conversation_document_def)
  have e: "search idle_env blank_memory ''abc'' 2 = Inr []"
    using a search_most_similar_first [of blank_memory idle_env "''abc''" 2 three_store "[3]"]
    by blast
  have f: "\<exists>ranked rest.
      search idle_env three_memory ''abc'' 2 = Inr (map (page_content \<circ> snd) ranked) \<and>
      int (length ranked) = min 2 (int (length three_store)) \<and>
      mset (ranked @ rest) = mset three_store \<and>
      sorted (map (\<lambda>r. l2_distance [3] (fst r)) ranked)"
    using b c search_most_similar_first [of three_memory idle_env "''abc''" 2 three_store "[3]"]
    by fastforce
  from a b c d e f show ?thesis by blast
qed

subsection \<open>Restarting after an addition\<close>

lemma restart_after_add_ok:
  assumes "embed E f = Inr v"
  shows "restart_after_add E self fs f =
           Inr (\<lparr>index_path = index_path self,
                 vectorstore = Some (case_option [] id (vectorstore self) @ [(v, conversation_document f [])])\<rparr>,
                save_local fs (index_path self)
                  (case_option [] id (vectorstore self) @ [(v, conversation_document f [])]))"
  by (simp add: restart_after_add_def add_memory_ok [OF assms] new_LongTermMemory_def
        load_or_create_def load_local_def save_local_def)

lemma hd_sort_key_least:
  fixes g :: "'a \<Rightarrow> real"
  assumes "xs \<noteq> []"
  shows "hd (sort_key g xs) \<in> set xs \<and> (\<forall>x\<in>set xs. g (hd (sort_key g xs)) \<le> g x)"
proof -
  define S where "S = sort_key g xs"
  have set: "set S = set xs" by (simp add: S_def)
  have srt: "sorted (map g S)" by (simp add: S_def)
  from assms set have "S \<noteq> []" by auto
  then obtain h t where S: "S = h # t"
    by (cases S) auto
  from srt S have "\<forall>x\<in>set S. g h \<le> g x" by auto
  moreover have "h \<in> set S" using S by simp
  moreover have "hd S = h" using S by simp
  ultimately have "hd S \<in> set xs \<and> (\<forall>x\<in>set xs. g (hd S) \<le> g x)"
    using set by simp
  then show ?thesis by (simp add: S_def)
qed

lemma search_one:
  assumes "vectorstore self = Some vs" and "vs \<noteq> []" and "embed E query = Inr q"
  shows "search E self query 1 =
           Inr [page_content (snd (hd (sort_key (\<lambda>r. l2_distance q (fst r)) vs)))]"
proof -
  let ?S = "sort_key (\<lambda>r. l2_distance q (fst r)) vs"
  from assms(2) have "?S \<noteq> []"
    by (metis length_0_conv length_sort)
  then have "take (nat 1) ?S = [hd ?S]"
    by (cases ?S) auto
  then show ?thesis
    using assms by (simp add: search_initialized)
qed

text \<open>
  Claim C8, as stated, fails: the store holds the fact \<open>ab\<close>, whose vector equals that of
  \<open>cd\<close>. After \<open>add(cd)\<close> and a restart on the same path, \<open>search(cd, 1)\<close> returns the
  earlier record \<open>ab\<close>, not \<open>cd\<close>.
\<close>

theorem search_after_restart_counterexample:
  "search_after_restart idle_env ab_memory ab_files ''cd'' = Inr [''ab''] \<and>
   search_after_restart idle_env ab_memory ab_files ''cd'' \<noteq> Inr [''cd'']"
proof -
  have e: "embed idle_env ''cd'' = Inr [2]"
    by (simp add: idle_env_def length_embed_def)
  have "search_after_restart idle_env ab_memory ab_files ''cd'' = Inr [''ab'']"
    by (simp add: search_after_restart_def restart_after_add_ok [OF e] search_def
          similarity_search_def e ab_memory_def ab_store_def l2_distance_def
          conversation_document_def)
  then show ?thesis by simp
qed

lemma nearest_after_append:
  fixes old :: faiss
  defines "g \<equiv> \<lambda>v r. l2_distance v (fst r)"
  shows "\<exists>h. h = hd (sort_key (g v) (old @ [(v, d)])) \<and> g v h = 0 \<and>
             (h \<in> set old \<or> h = (v, d))"
proof -
  let ?new = "old @ [(v, d)]"
  let ?h = "hd (sort_key (g v) ?new)"
  have "?new \<noteq> []" by simp
  then have h: "?h \<in> set ?new \<and> (\<forall>x\<in>set ?new. g v ?h \<le> g v x)"
    by (rule hd_sort_key_least)
  then have "g v ?h \<le> g v (v, d)" by simp
  then have "g v ?h \<le> 0" by (simp add: g_def l2_distance_self)
  moreover have "0 \<le> g v ?h" by (simp add: g_def l2_distance_nonneg)
  ultimately have "g v ?h = 0" by simp
  moreover from h have "?h \<in> set old \<or> ?h = (v, d)" by auto
  ultimately show ?thesis by blast
qed

lemma restart_round_trip_general:
  assumes e: "embed E f = Inr v"
      and old: "old = case_option [] id (vectorstore self)"
  shows "(\<exists>fs'. restart_after_add E self fs f =
            Inr (\<lparr>index_path = index_path self,
                  vectorstore = Some (old @ [(v, conversation_document f [])])\<rparr>, fs') \<and>
            index_files fs' (index_path self) =
              Some (Index (old @ [(v, conversation_document f [])]))) \<and>
         (\<exists>r. r \<in> set (old @ [(v, conversation_document f [])]) \<and>
              l2_distance v (fst r) = 0 \<and>
              search_after_restart E self fs f = Inr [page_content (snd r)]) \<and>
         ((\<forall>r\<in>set old. l2_distance v (fst r) = 0 \<longrightarrow> page_content (snd r) = f) \<longrightarrow>
          search_after_restart E self fs f = Inr [f])"
proof -
  let ?d = "conversation_document f []"
  let ?new = "old @ [(v, ?d)]"
  obtain h where h: "h = hd (sort_key (\<lambda>r. l2_distance v (fst r)) ?new)"
      and h0: "l2_distance v (fst h) = 0" and hm: "h \<in> set old \<or> h = (v, ?d)"
    using nearest_after_append [of v old ?d] by blast
  have r: "restart_after_add E self fs f =
             Inr (\<lparr>index_path = index_path self, vectorstore = Some ?new\<rparr>,
                  save_local fs (index_path self) ?new)"
    unfolding old by (rule restart_after_add_ok [OF e])
  have s: "search_after_restart E self fs f = Inr [page_content (snd h)]"
    by (simp add: search_after_restart_def r search_one [where vs = ?new and q = v] e h)
  have 1: "\<exists>fs'. restart_after_add E self fs f =
            Inr (\<lparr>index_path = index_path self, vectorstore = Some ?new\<rparr>, fs') \<and>
            index_files fs' (index_path self) = Some (Index ?new)"
    by (simp add: r save_local_def)
  have 2: "\<exists>r. r \<in> set ?new \<and> l2_distance v (fst r) = 0 \<and>
              search_after_restart E self fs f = Inr [page_content (snd r)]"
  proof -
    from hm have "h \<in> set ?new" by auto
    with h0 s show ?thesis by blast
  qed
  have 3: "(\<forall>r\<in>set old. l2_distance v (fst r) = 0 \<longrightarrow> page_content (snd r) = f) \<longrightarrow>
          search_after_restart E self fs f = Inr [f]"
  proof
    assume a: "\<forall>r\<in>set old. l2_distance v (fst r) = 0 \<longrightarrow> page_content (snd r) = f"
    from hm have "page_content (snd h) = f"
    proof
      assume "h \<in> set old"
      with a h0 show ?thesis by blast
    next
      assume "h = (v, ?d)"
      then show ?thesis by simp
    qed
    with s show "search_after_restart E self fs f = Inr [f]" by simp
  qed
  from 1 2 3 show ?thesis by blast
qed

text \<open>
  Claim C8, amended. When the embedding of \<open>f\<close> succeeds, \<open>add(f)\<close> followed by a fresh store
  constructed on the same path yields a store holding every earlier record and the new one,
  in order: nothing is lost through the restart. On it \<open>search(f, 1)\<close> returns the fact of
  one record at distance 0 of \<open>f\<close>'s vector; this is \<open>[f]\<close> whenever no earlier record with a
  different fact lies at distance 0.
\<close>

theorem restart_round_trip:
  assumes "embed E f = Inr v"
  shows "(\<exists>fs'. restart_after_add E self fs f =
            Inr (\<lparr>index_path = index_path self,
                  vectorstore = Some (case_option [] id (vectorstore self)
                                        @ [(v, conversation_document f [])])\<rparr>, fs') \<and>
            index_files fs' (index_path self) =
              Some (Index (case_option [] id (vectorstore self) @ [(v, conversation_document f [])]))) \<and>
         (\<exists>r. r \<in> set (case_option [] id (vectorstore self) @ [(v, conversation_document f [])]) \<and>
              l2_distance v (fst r) = 0 \<and>
              search_after_restart E self fs f = Inr [page_content (snd r)]) \<and>
         ((\<forall>r\<in>set (case_option [] id (vectorstore self)).
              l2_distance v (fst r) = 0 \<longrightarrow> page_content (snd r) = f) \<longrightarrow>
          search_after_restart E self fs f = Inr [f])"
  by (rule restart_round_trip_general [OF assms refl])

theorem restart_round_trip_witness:
  "embed idle_env ''abcdefg'' = Inr [7] \<and>
   search_after_restart idle_env three_memory no_files ''abcdefg'' = Inr [''abcdefg''] \<and>
   (\<exists>fs'. restart_after_add idle_env three_memory no_files ''abcdefg'' =
      Inr (\<lparr>index_path = index_path three_memory,
            vectorstore = Some (three_store @ [([7], conversation_document ''abcdefg'' [])])\<rparr>, fs'))"
proof -
  have e: "embed idle_env ''abcdefg'' = Inr [7]"
    by (simp add: idle_env_def length_embed_def)
  have v: "vectorstore three_memory = Some three_store"
    by (simp add: three_memory_def)
  have d: "\<forall>r\<in>set (case_option [] id (vectorstore three_memory)).
             l2_distance [7] (fst r) = 0 \<longrightarrow> page_content (snd r) = ''abcdefg''"
    by (simp add: v three_store_def l2_distance_def)
  show ?thesis
    using e d v restart_round_trip [OF e, of three_memory no_files]
    by auto
qed

subsection \<open>The short-term window\<close>

lemma windowed_positive:
  assumes "0 < SHORT_TERM_WINDOW E"
  shows "windowed E ms = drop (length ms - nat (2 * SHORT_TERM_WINDOW E)) ms"
    and "length (windowed E ms) = min (length ms) (nat (2 * SHORT_TERM_WINDOW E))"
proof -
  have eq: "nat (int (length ms) - SHORT_TERM_WINDOW E * 2) = length ms - nat (2 * SHORT_TERM_WINDOW E)"
    using assms by linarith
  show "windowed E ms = drop (length ms - nat (2 * SHORT_TERM_WINDOW E)) ms"
    using assms by (auto simp: windowed_def slice_from_def Let_def eq)
  then show "length (windowed E ms) = min (length ms) (nat (2 * SHORT_TERM_WINDOW E))"
    by auto
qed

lemma generate_response_keeps_transcript:
  "generate_response E st = Inr u \<Longrightarrow>
   \<exists>reply. messages (apply_update st u) = messages st @ [AIMessage reply]"
  by (auto simp: generate_response_def apply_update_def split: sum.splits)

text \<open>
  Claim C5 against the code at the window \<open>W = 0\<close>: the transcript has one turn, the view
  should hold \<open>min(1, 2 * 0) = 0\<close> turns, and the code passes the whole transcript to the
  generation, because \<open>conversation[-0:]\<close> is the whole list.
\<close>

theorem windowed_zero_window_keeps_all:
  "SHORT_TERM_WINDOW zero_window_env = 0 \<and>
   windowed zero_window_env [HumanMessage ''hi''] = [HumanMessage ''hi''] \<and>
   prompt_messages zero_window_env hi_state = [SystemMessage ''persona'', HumanMessage ''hi'']"
  by (simp add: zero_window_env_def idle_env_def windowed_def slice_from_def prompt_messages_def
        full_system_def hi_state_def)

subsection \<open>The extraction flag\<close>

lemma generate_response_sets_flag:
  "generate_response E st = Inr u \<Longrightarrow>
   upd_should_extract_memory u = Some True \<and> should_extract_memory (apply_update st u)"
  by (auto simp: generate_response_def apply_update_def split: sum.splits)

lemma extract_memory_returns:
  "fst (extract_memory E st w) = Inr u \<Longrightarrow>
   u = (if should_extract_memory st then no_update\<lparr>upd_should_extract_memory := Some False\<rparr>
        else no_update)"
  by (auto simp: extract_memory_def split: prod.splits if_splits option.splits)

lemma extract_memory_returned_flag:
  "fst (extract_memory E st w) = Inr u \<Longrightarrow> \<not> should_extract_memory (apply_update st u)"
  by (cases "should_extract_memory st")
     (auto dest!: extract_memory_returns simp: apply_update_def no_update_def)

lemma extract_memory_few_turns:
  "length (messages st) < 2 \<Longrightarrow>
   snd (extract_memory E st w) = w \<and> (\<exists>u. fst (extract_memory E st w) = Inr u)"
  by (simp add: extract_memory_def)

lemma agent_invoke_returned_flag:
  assumes "agent_invoke E st w = (Inr st', w')"
  shows "\<not> should_extract_memory st'"
proof (cases "retrieve_memories E st w")
  case (Pair r w1)
  show ?thesis
  proof (cases r)
    case (Inl e)
    with Pair assms show ?thesis by (simp add: agent_invoke_def)
  next
    case u1: (Inr u1)
    show ?thesis
    proof (cases "generate_response E (apply_update st u1)")
      case (Inl e)
      with Pair u1 assms show ?thesis by (simp add: agent_invoke_def Let_def)
    next
      case u2: (Inr u2)
      let ?st2 = "apply_update (apply_update st u1) u2"
      obtain x w3 where x: "extract_memory E ?st2 w1 = (x, w3)"
        by (cases "extract_memory E ?st2 w1")
      show ?thesis
      proof (cases x)
        case (Inl e)
        with Pair u1 u2 x assms show ?thesis by (simp add: agent_invoke_def Let_def)
      next
        case (Inr u3)
        with Pair u1 u2 x assms have "st' = apply_update ?st2 u3"
          by (simp add: agent_invoke_def Let_def)
        moreover from x Inr have "fst (extract_memory E ?st2 w1) = Inr u3" by simp
        ultimately show ?thesis by (simp add: extract_memory_returned_flag)
      qed
    qed
  qed
qed

lemma extract_memory_provider_failure:
  assumes "should_extract_memory st" and "2 \<le> length (messages st)"
      and "last_exchange (rev (messages st)) [] [] = (h, a)" and "h \<noteq> []" and "a \<noteq> []"
      and "llm_invoke E (extract_prompt E h a) = Inl e"
  shows "extract_memory E st w = (Inl UnboundLocalError, w)"
  using assms by (simp add: extract_memory_def extract_try_def)



text \<open>
  Claim C6 against the code when the chat model answers the conversation and fails on the
  extraction prompt. The reply \<open>ok\<close> is generated and the flag is set to true; the
  extracting phase, entered with the two turns, raises \<open>UnboundLocalError\<close> from its
  handler instead of resetting the flag, and the run of the agent ends with that error.
\<close>

theorem extracting_phase_raises_before_reset:
  "generate_response flaky_env hi_state = Inr ok_update \<and>
   apply_update hi_state ok_update = exchange_state \<and>
   should_extract_memory exchange_state \<and>
   extract_memory flaky_env exchange_state done_world = (Inl UnboundLocalError, done_world) \<and>
   agent_invoke flaky_env hi_state fresh_world = (Inl UnboundLocalError, done_world)"
proof -
  have g: "generate_response flaky_env hi_state = Inr ok_update"
    by (simp add: generate_response_def flaky_env_def idle_env_def ok_update_def
          answers_then_fails_def prompt_messages_def full_system_def hi_state_def)
  have b: "apply_update hi_state ok_update = exchange_state"
    by (simp add: apply_update_def ok_update_def hi_state_def exchange_state_def done_state_def)
  have 1: "should_extract_memory exchange_state"
    by (simp add: exchange_state_def)
  have 2: "2 \<le> length (messages exchange_state)"
    by (simp add: exchange_state_def done_state_def)
  have 3: "last_exchange (rev (messages exchange_state)) [] [] = (''hi'', ''ok'')"
    by (simp add: exchange_state_def done_state_def)
  have 4: "''hi'' \<noteq> []" and 5: "''ok'' \<noteq> []" by simp_all
  have 6: "llm_invoke flaky_env (extract_prompt flaky_env ''hi'' ''ok'') = Inl GenerationFailed"
    by (simp add: flaky_env_def idle_env_def extract_prompt_def answers_then_fails_def)
  have x: "extract_memory flaky_env exchange_state done_world = (Inl UnboundLocalError, done_world)"
    by (rule extract_memory_provider_failure [OF 1 2 3 4 5 6])
  have m: "get_memory flaky_env fresh_world = Inr (blank_memory, done_world)"
    by (simp add: get_memory_def fresh_world_def new_LongTermMemory_def load_or_create_def
          load_initial_memories_def no_files_def flaky_env_def idle_env_def blank_memory_def
          done_world_def)
  have r: "retrieve_memories flaky_env hi_state fresh_world =
             (Inr (no_update\<lparr>upd_retrieved_memories := Some []\<rparr>), done_world)"
    by (simp add: retrieve_memories_def hi_state_def m search_def blank_memory_def)
  have a: "apply_update hi_state (no_update\<lparr>upd_retrieved_memories := Some []\<rparr>) = hi_state"
    by (simp add: apply_update_def no_update_def hi_state_def)
  have "agent_invoke flaky_env hi_state fresh_world = (Inl UnboundLocalError, done_world)"
    by (simp add: agent_invoke_def r a g b x)
  with g b 1 x show ?thesis by simp
qed

subsection \<open>Failures while retrieving\<close>






subsection \<open>Filtering and writing the extracted facts\<close>

lemma add_facts_add_each:
  "add_facts E memory fs items = add_each E memory fs (accepted_facts items)"
  by (induction E memory fs items rule: add_facts.induct) (auto split: sum.splits)

lemma accepted_facts_iff:
  "f \<in> set (accepted_facts items) \<longleftrightarrow> JString f \<in> set items \<and> 5 < length f"
  by (induction items rule: accepted_facts.induct) auto

lemma save_local_twice [simp]:
  "save_local (save_local fs p a) p b = save_local fs p b"
  by (simp add: save_local_def)

lemma add_memory_records:
  assumes "embed E f = Inr v"
  shows "add_memory E memory fs f topic =
           Inr (memory\<lparr>vectorstore := Some (records memory @ [(v, conversation_document f topic)])\<rparr>,
                save_local fs (index_path memory)
                  (records memory @ [(v, conversation_document f topic)]))"
  using add_memory_ok [OF assms, of memory fs topic]
  by (simp add: records_def id_def split: option.splits)

lemma add_each_all:
  assumes "embed_documents E (map (\<lambda>f. conversation_document f []) facts) = Inr new"
      and "facts \<noteq> []"
  shows "add_each E memory fs facts =
           (None, memory\<lparr>vectorstore := Some (records memory @ new)\<rparr>,
            save_local fs (index_path memory) (records memory @ new))"
  using assms
proof (induction facts arbitrary: memory fs new)
  case Nil
  then show ?case by simp
next
  case (Cons f rest)
  from Cons.prems(1) obtain v new' where v: "embed E f = Inr v"
    and r: "embed_documents E (map (\<lambda>f. conversation_document f []) rest) = Inr new'"
    and n: "new = (v, conversation_document f []) # new'"
    by (auto split: sum.splits)
  let ?m = "memory\<lparr>vectorstore := Some (records memory @ [(v, conversation_document f [])])\<rparr>"
  let ?fs = "save_local fs (index_path memory) (records memory @ [(v, conversation_document f [])])"
  have a: "add_memory E memory fs f [] = Inr (?m, ?fs)"
    by (rule add_memory_records [OF v])
  show ?case
  proof (cases "rest = []")
    case True
    with r have "new' = []" by simp
    with a n True show ?thesis by simp
  next
    case False
    have "add_each E ?m ?fs rest =
            (None, ?m\<lparr>vectorstore := Some (records ?m @ new')\<rparr>,
             save_local ?fs (index_path ?m) (records ?m @ new'))"
      by (rule Cons.IH [OF r False])
    with a n show ?thesis by (simp add: records_def)
  qed
qed

lemma add_each_prefix:
  "\<exists>added rest. records (fst (snd (add_each E memory fs facts))) = records memory @ added \<and>
                facts = map (\<lambda>r. page_content (snd r)) added @ rest"
proof (induction facts arbitrary: memory fs)
  case Nil
  then show ?case by simp
next
  case (Cons f facts)
  show ?case
  proof (cases "embed E f")
    case (Inl e)
    then have "add_memory E memory fs f [] = Inl e"
      by (simp add: add_memory_def add_documents_def from_documents_def Let_def
            split: option.splits)
    then have "records (fst (snd (add_each E memory fs (f # facts)))) = records memory @ []"
      by simp
    then show ?thesis by (metis append_Nil list.simps(8))
  next
    case (Inr v)
    let ?m = "memory\<lparr>vectorstore := Some (records memory @ [(v, conversation_document f [])])\<rparr>"
    let ?fs = "save_local fs (index_path memory) (records memory @ [(v, conversation_document f [])])"
    have a: "add_memory E memory fs f [] = Inr (?m, ?fs)"
      by (rule add_memory_records [OF Inr])
    from Cons.IH [of ?m ?fs] obtain added rest where
      1: "records (fst (snd (add_each E ?m ?fs facts))) = records ?m @ added"
      and 2: "facts = map (\<lambda>r. page_content (snd r)) added @ rest"
      by blast
    have "records (fst (snd (add_each E memory fs (f # facts))))
            = records memory @ ((v, conversation_document f []) # added)"
      using a 1 by (simp add: records_def)
    moreover have "f # facts = map (\<lambda>r. page_content (snd r)) ((v, conversation_document f []) # added) @ rest"
      using 2 by simp
    ultimately show ?thesis by blast
  qed
qed

lemma embed_documents_contents:
  "embed_documents E (map (\<lambda>f. conversation_document f []) facts) = Inr new \<Longrightarrow>
   map (\<lambda>r. page_content (snd r)) new = facts"
  by (induction facts arbitrary: new) (auto split: sum.splits)

lemma extract_memory_array:
  assumes "should_extract_memory st" and "2 \<le> length (messages st)"
      and "last_exchange (rev (messages st)) [] [] = (h, a)" and "h \<noteq> []" and "a \<noteq> []"
      and "llm_invoke E (extract_prompt E h a) = Inr raw"
      and "json_loads E (unwrap_content raw) = Inr (JArray items)"
      and "get_memory E w = Inr (memory, w1)"
  shows "snd (extract_memory E st w) =
           \<lparr>long_term_memory = Some (fst (snd (add_facts E memory (files w1) items))),
            files = snd (snd (add_facts E memory (files w1) items))\<rparr>"
  using assms
  by (simp add: extract_memory_def extract_try_def extract_body_def split: prod.splits)

text \<open>
  Claim C9. When the extraction provider's answer parses to an array, the world left by
  \<open>extract_memory\<close> is the one left by one \<open>add_memory\<close> call per accepted element, in
  order, where an element is accepted only if it is a string longer than 5 characters. What
  the store gains is a run of records whose facts are an initial part of the accepted facts;
  when the embedding of every accepted fact succeeds it gains exactly one record per
  accepted fact, saved at the index path, and the count grows by their number.
\<close>

theorem extraction_writes_accepted_facts:
  assumes "should_extract_memory st" and "2 \<le> length (messages st)"
      and "last_exchange (rev (messages st)) [] [] = (h, a)" and "h \<noteq> []" and "a \<noteq> []"
      and "llm_invoke E (extract_prompt E h a) = Inr raw"
      and "json_loads E (unwrap_content raw) = Inr (JArray items)"
      and "get_memory E w = Inr (memory, w1)"
  shows "snd (extract_memory E st w) =
           \<lparr>long_term_memory = Some (fst (snd (add_each E memory (files w1) (accepted_facts items)))),
            files = snd (snd (add_each E memory (files w1) (accepted_facts items)))\<rparr> \<and>
         (\<forall>f\<in>set (accepted_facts items). 5 < length f \<and> JString f \<in> set items) \<and>
         (\<exists>added rest.
            records (fst (snd (add_each E memory (files w1) (accepted_facts items))))
              = records memory @ added \<and>
            accepted_facts items = map (\<lambda>r. page_content (snd r)) added @ rest) \<and>
         (embed_documents E (map (\<lambda>f. conversation_document f []) (accepted_facts items)) = Inr new \<longrightarrow>
          accepted_facts items \<noteq> [] \<longrightarrow>
            snd (extract_memory E st w) =
              \<lparr>long_term_memory = Some (memory\<lparr>vectorstore := Some (records memory @ new)\<rparr>),
               files = save_local (files w1) (index_path memory) (records memory @ new)\<rparr> \<and>
            map (\<lambda>r. page_content (snd r)) new = accepted_facts items \<and>
            get_all_count (memory\<lparr>vectorstore := Some (records memory @ new)\<rparr>)
              = get_all_count memory + length (accepted_facts items))"
proof -
  have x: "snd (extract_memory E st w) =
           \<lparr>long_term_memory = Some (fst (snd (add_each E memory (files w1) (accepted_facts items)))),
            files = snd (snd (add_each E memory (files w1) (accepted_facts items)))\<rparr>"
    using extract_memory_array [OF assms] by (simp add: add_facts_add_each)
  have acc: "\<forall>f\<in>set (accepted_facts items). 5 < length f \<and> JString f \<in> set items"
    by (simp add: accepted_facts_iff)
  have pre: "\<exists>added rest.
            records (fst (snd (add_each E memory (files w1) (accepted_facts items))))
              = records memory @ added \<and>
            accepted_facts items = map (\<lambda>r. page_content (snd r)) added @ rest"
    by (rule add_each_prefix)
  have all: "snd (extract_memory E st w) =
              \<lparr>long_term_memory = Some (memory\<lparr>vectorstore := Some (records memory @ new)\<rparr>),
               files = save_local (files w1) (index_path memory) (records memory @ new)\<rparr> \<and>
            map (\<lambda>r. page_content (snd r)) new = accepted_facts items \<and>
            get_all_count (memory\<lparr>vectorstore := Some (records memory @ new)\<rparr>)
              = get_all_count memory + length (accepted_facts items)"
    if e: "embed_documents E (map (\<lambda>f. conversation_document f []) (accepted_facts items)) = Inr new"
      and ne: "accepted_facts items \<noteq> []"
  proof -
    have c: "map (\<lambda>r. page_content (snd r)) new = accepted_facts items"
      using e by (rule embed_documents_contents)
    then have "length new = length (accepted_facts items)"
      by (metis length_map)
    then have n: "get_all_count (memory\<lparr>vectorstore := Some (records memory @ new)\<rparr>)
              = get_all_count memory + length (accepted_facts items)"
      by (simp add: get_all_count_def records_def split: option.splits)
    show ?thesis
      using x c n by (simp add: add_each_all [OF e ne])
  qed
  from x acc pre all show ?thesis by blast
qed

theorem extraction_writes_accepted_facts_witness:
  "should_extract_memory exchange_state \<and>
   last_exchange (rev (messages exchange_state)) [] [] = (''hi'', ''ok'') \<and>
   llm_invoke mixed_env (extract_prompt mixed_env ''hi'' ''ok'') = Inr mixed_text \<and>
   json_loads mixed_env (unwrap_content mixed_text) = Inr (JArray mixed_items) \<and>
   get_memory mixed_env done_world = Inr (blank_memory, done_world) \<and>
   accepted_facts mixed_items = [''user likes coffee'', ''has a cat''] \<and>
   embed_documents mixed_env
     (map (\<lambda>f. conversation_document f []) (accepted_facts mixed_items)) = Inr coffee_cat_store \<and>
   snd (extract_memory mixed_env exchange_state done_world) =
     \<lparr>long_term_memory = Some (blank_memory\<lparr>vectorstore := Some coffee_cat_store\<rparr>),
      files = save_local no_files ''raymond_memory_index'' coffee_cat_store\<rparr> \<and>
   get_all_count (blank_memory\<lparr>vectorstore := Some coffee_cat_store\<rparr>) = 2"
proof -
  have 1: "should_extract_memory exchange_state"
    by (simp add: exchange_state_def)
  have 2: "2 \<le> length (messages exchange_state)"
    by (simp add: exchange_state_def done_state_def)
  have 3: "last_exchange (rev (messages exchange_state)) [] [] = (''hi'', ''ok'')"
    by (simp add: exchange_state_def done_state_def)
  have 4: "''hi'' \<noteq> []" and 5: "''ok'' \<noteq> []" by simp_all
  have 6: "llm_invoke mixed_env (extract_prompt mixed_env ''hi'' ''ok'') = Inr mixed_text"
    by (simp add: mixed_env_def)
  have u: "unwrap_content mixed_text = mixed_text"
    by (simp add: unwrap_content_def strip_def mixed_text_def quoted_def is_space_def fence_def)
  have 7: "json_loads mixed_env (unwrap_content mixed_text) = Inr (JArray mixed_items)"
    by (simp add: u mixed_env_def mixed_json_loads_def)
  have 8: "get_memory mixed_env done_world = Inr (blank_memory, done_world)"
    by (simp add: get_memory_def done_world_def)
  have 9: "accepted_facts mixed_items = [''user likes coffee'', ''has a cat'']"
    by (simp add: mixed_items_def)
  have 10: "embed_documents mixed_env
     (map (\<lambda>f. conversation_document f []) (accepted_facts mixed_items)) = Inr coffee_cat_store"
    by (simp add: 9 mixed_env_def idle_env_def length_embed_def coffee_cat_store_def)
  have r: "records blank_memory = []" and p: "index_path blank_memory = ''raymond_memory_index''"
    by (simp_all add: records_def blank_memory_def)
  have f: "files done_world = no_files"
    by (simp add: done_world_def)
  have ne: "accepted_facts mixed_items \<noteq> []"
    by (simp add: 9)
  have t: "snd (extract_memory mixed_env exchange_state done_world) =
              \<lparr>long_term_memory =
                 Some (blank_memory\<lparr>vectorstore := Some (records blank_memory @ coffee_cat_store)\<rparr>),
               files = save_local (files done_world) (index_path blank_memory)
                         (records blank_memory @ coffee_cat_store)\<rparr> \<and>
           get_all_count (blank_memory\<lparr>vectorstore := Some (records blank_memory @ coffee_cat_store)\<rparr>)
              = get_all_count blank_memory + length (accepted_facts mixed_items)"
    using extraction_writes_accepted_facts [OF 1 2 3 4 5 6 7 8, of coffee_cat_store] 10 ne
    by blast
  have c: "get_all_count blank_memory + length (accepted_facts mixed_items) = 2"
    by (simp add: 9 get_all_count_def blank_memory_def)
  from t have x: "snd (extract_memory mixed_env exchange_state done_world) =
     \<lparr>long_term_memory = Some (blank_memory\<lparr>vectorstore := Some coffee_cat_store\<rparr>),
      files = save_local no_files ''raymond_memory_index'' coffee_cat_store\<rparr>"
    and n: "get_all_count (blank_memory\<lparr>vectorstore := Some coffee_cat_store\<rparr>) = 2"
    by (simp_all add: r p f c)
  from 1 3 6 7 8 9 10 x n show ?thesis by blast
qed

subsection \<open>Parsing the answer of the extraction provider\<close>

lemma rfind_fence_fence: "rfind_fence fence = Some []"
  by (simp add: fence_def)

lemma rfind_fence_append: "rfind_fence (s @ fence) = Some s"
  by (induction s) (simp_all add: rfind_fence_fence)

lemma before_last_fence_append: "before_last_fence (s @ fence) = s"
  by (simp add: before_last_fence_def rfind_fence_append)

lemma after_first_newline_fenced:
  assumes "CHR 0x0A \<notin> set lang"
  shows "after_first_newline (fence @ lang @ [CHR 0x0A] @ rest) = rest"
proof -
  have "CHR 0x0A \<notin> set (fence @ lang)"
    using assms by (simp add: fence_def)
  then have "dropWhile (\<lambda>c. c \<noteq> CHR 0x0A) ((fence @ lang) @ CHR 0x0A # rest) = CHR 0x0A # rest"
    by (subst dropWhile_append2) auto
  then show ?thesis
    by (simp add: after_first_newline_def)
qed

lemma unwrap_content_fenced:
  assumes "strip raw = fence @ lang @ [CHR 0x0A] @ body @ fence" and "CHR 0x0A \<notin> set lang"
  shows "unwrap_content raw = strip body"
proof -
  have "take 3 (strip raw) = fence"
    by (simp add: assms(1)) (simp add: fence_def)
  moreover have "after_first_newline (strip raw) = body @ fence"
    unfolding assms(1) by (rule after_first_newline_fenced [OF assms(2)])
  ultimately show ?thesis
    by (simp add: unwrap_content_def Let_def before_last_fence_append)
qed

lemma unwrap_content_plain:
  "take 3 (strip raw) \<noteq> fence \<Longrightarrow> unwrap_content raw = strip raw"
  by (simp add: unwrap_content_def Let_def)

lemma accepted_facts_strings:
  "accepted_facts (map JString facts) = filter (\<lambda>f. 5 < length f) facts"
  by (induction facts) auto

lemma add_each_records:
  assumes "embed_documents E (map (\<lambda>f. conversation_document f []) facts) = Inr new"
  shows "records (fst (snd (add_each E memory fs facts))) = records memory @ new"
proof (cases "facts = []")
  case True
  with assms show ?thesis by simp
next
  case False
  show ?thesis
    by (simp add: add_each_all [OF assms False] records_def)
qed

lemma unwrap_fenced_coffee: "unwrap_content (fenced coffee_array_text) = coffee_array_text"
  by (simp add: unwrap_content_def strip_def fenced_def coffee_array_text_def quoted_def
        is_space_def fence_def after_first_newline_def before_last_fence_def)

lemma extract_memory_after_answer:
  assumes "should_extract_memory st" and "2 \<le> length (messages st)"
      and "last_exchange (rev (messages st)) [] [] = (h, a)" and "h \<noteq> []" and "a \<noteq> []"
      and "llm_invoke E (extract_prompt E h a) = Inr raw"
  shows "fst (extract_memory E st w) = Inr (no_update\<lparr>upd_should_extract_memory := Some False\<rparr>)"
    and "json_loads E (unwrap_content raw) = Inl e \<Longrightarrow> snd (extract_memory E st w) = w"
    and "json_loads E (unwrap_content raw) = Inr j \<Longrightarrow> (\<forall>items. j \<noteq> JArray items) \<Longrightarrow>
         snd (extract_memory E st w) = w"
  using assms
  by (simp_all add: extract_memory_def extract_try_def extract_body_def split: json.splits)

lemma extract_memory_fenced_array:
  assumes "should_extract_memory st" and "2 \<le> length (messages st)"
      and "last_exchange (rev (messages st)) [] [] = (h, a)" and "h \<noteq> []" and "a \<noteq> []"
      and l: "llm_invoke E (extract_prompt E h a) = Inr raw"
      and f: "strip raw = fence @ lang @ [CHR 0x0A] @ body @ fence" and n: "CHR 0x0A \<notin> set lang"
      and j: "json_loads E (strip body) = Inr (JArray (map JString facts))"
      and g: "get_memory E w = Inr (memory, w1)"
      and e: "embed_documents E
                (map (\<lambda>f. conversation_document f []) (filter (\<lambda>f. 5 < length f) facts)) = Inr new"
  shows "\<exists>memory'.
           long_term_memory (snd (extract_memory E st w)) = Some memory' \<and>
           records memory' = records memory @ new \<and>
           map (\<lambda>r. page_content (snd r)) new = filter (\<lambda>f. 5 < length f) facts"
proof -
  let ?acc = "filter (\<lambda>f. 5 < length f) facts"
  from f n have "unwrap_content raw = strip body"
    by (rule unwrap_content_fenced)
  with j have j': "json_loads E (unwrap_content raw) = Inr (JArray (map JString facts))"
    by simp
  have "long_term_memory (snd (extract_memory E st w)) =
          Some (fst (snd (add_each E memory (files w1) ?acc)))"
    using extract_memory_array [OF assms(1-5) l j' g]
    by (simp add: add_facts_add_each accepted_facts_strings)
  moreover have "records (fst (snd (add_each E memory (files w1) ?acc))) = records memory @ new"
    using e by (rule add_each_records)
  moreover have "map (\<lambda>r. page_content (snd r)) new = ?acc"
    using e by (rule embed_documents_contents)
  ultimately show ?thesis by blast
qed

text \<open>
  What the extracting phase does once the provider has answered, on the examples of the
  spec: an array cut short and an object leave the world as it was, and the fenced array
  of \<open>user likes coffee\<close> yields exactly that fact.
\<close>

lemma extraction_examples:
  "extract_memory truncated_extractor_env exchange_state done_world
     = (Inr (no_update\<lparr>upd_should_extract_memory := Some False\<rparr>), done_world) \<and>
   extract_memory object_extractor_env exchange_state done_world
     = (Inr (no_update\<lparr>upd_should_extract_memory := Some False\<rparr>), done_world) \<and>
   unwrap_content (fenced coffee_array_text) = coffee_array_text \<and>
   (\<exists>memory'.
      long_term_memory (snd (extract_memory coffee_extractor_env exchange_state done_world))
        = Some memory' \<and>
      records memory' = [([17], conversation_document ''user likes coffee'' [])])"
proof -
  have 1: "should_extract_memory exchange_state"
    by (simp add: exchange_state_def)
  have 2: "2 \<le> length (messages exchange_state)"
    by (simp add: exchange_state_def done_state_def)
  have 3: "last_exchange (rev (messages exchange_state)) [] [] = (''hi'', ''ok'')"
    by (simp add: exchange_state_def done_state_def)
  have 4: "''hi'' \<noteq> []" and 5: "''ok'' \<noteq> []" by simp_all
  let ?cut = "''['' @ quoted ''user likes''"
  have t1: "llm_invoke truncated_extractor_env (extract_prompt truncated_extractor_env ''hi'' ''ok'')
              = Inr ?cut"
    by (simp add: truncated_extractor_env_def)
  have t2: "json_loads truncated_extractor_env (unwrap_content ?cut) = Inl JSONDecodeError"
    by (simp add: unwrap_content_def strip_def quoted_def is_space_def fence_def
          truncated_extractor_env_def small_json_loads_def hi_array_text_def
          coffee_array_text_def)
  have t: "extract_memory truncated_extractor_env exchange_state done_world
     = (Inr (no_update\<lparr>upd_should_extract_memory := Some False\<rparr>), done_world)"
    using extract_memory_after_answer(1,2) [OF 1 2 3 4 5 t1, where w = done_world] t2
    by (simp add: prod_eq_iff)
  have o1: "llm_invoke object_extractor_env (extract_prompt object_extractor_env ''hi'' ''ok'')
              = Inr ''{}''"
    by (simp add: object_extractor_env_def)
  have o2: "json_loads object_extractor_env (unwrap_content ''{}'') = Inr (JObject [])"
    by (simp add: unwrap_content_def strip_def is_space_def fence_def object_extractor_env_def
          small_json_loads_def hi_array_text_def coffee_array_text_def quoted_def)
  have o3: "\<forall>items. JObject [] \<noteq> JArray items" by simp
  have o: "extract_memory object_extractor_env exchange_state done_world
     = (Inr (no_update\<lparr>upd_should_extract_memory := Some False\<rparr>), done_world)"
    using extract_memory_after_answer(1,3) [OF 1 2 3 4 5 o1, where w = done_world] o2 o3
    by (simp add: prod_eq_iff)
  let ?body = "coffee_array_text @ [CHR 0x0A]"
  have c1: "llm_invoke coffee_extractor_env (extract_prompt coffee_extractor_env ''hi'' ''ok'')
              = Inr (fenced coffee_array_text)"
    by (simp add: coffee_extractor_env_def)
  have c2: "strip (fenced coffee_array_text) = fence @ ''json'' @ [CHR 0x0A] @ ?body @ fence"
    by (simp add: strip_def fenced_def coffee_array_text_def quoted_def is_space_def fence_def)
  have c3: "CHR 0x0A \<notin> set ''json''" by simp
  have c4: "strip ?body = coffee_array_text"
    by (simp add: strip_def coffee_array_text_def quoted_def is_space_def)
  have "json_loads coffee_extractor_env coffee_array_text
              = Inr (JArray (map JString [''user likes coffee'']))"
    by (simp add: coffee_extractor_env_def small_json_loads_def coffee_array_text_def
          hi_array_text_def quoted_def)
  then have c5: "json_loads coffee_extractor_env (strip ?body)
              = Inr (JArray (map JString [''user likes coffee'']))"
    by (simp only: c4)
  have c6: "get_memory coffee_extractor_env done_world = Inr (blank_memory, done_world)"
    by (simp add: get_memory_def done_world_def)
  have c7: "embed_documents coffee_extractor_env
              (map (\<lambda>f. conversation_document f []) (filter (\<lambda>f. 5 < length f) [''user likes coffee'']))
              = Inr [([17], conversation_document ''user likes coffee'' [])]"
    by (simp add: coffee_extractor_env_def idle_env_def length_embed_def)
  have "\<exists>memory'.
      long_term_memory (snd (extract_memory coffee_extractor_env exchange_state done_world))
        = Some memory' \<and>
      records memory' = records blank_memory @ [([17], conversation_document ''user likes coffee'' [])]"
    using extract_memory_fenced_array [OF 1 2 3 4 5 c1 c2 c3 c5 c6 c7] by blast
  then have c: "\<exists>memory'.
      long_term_memory (snd (extract_memory coffee_extractor_env exchange_state done_world))
        = Some memory' \<and>
      records memory' = [([17], conversation_document ''user likes coffee'' [])]"
    by (simp add: records_def blank_memory_def)
  from t o unwrap_fenced_coffee c show ?thesis by blast
qed

text \<open>
  Claim C3 against the code when the extraction provider fails: the extracting phase is
  entered with the exchange \<open>hi\<close> / \<open>ok\<close> and the flag set, \<open>llm.invoke\<close> raises, and
  \<open>extract_memory\<close> raises \<open>UnboundLocalError\<close> to its caller instead of returning. Nothing
  is persisted, but an error is raised.
\<close>

theorem provider_failure_raises:
  "should_extract_memory exchange_state \<and>
   last_exchange (rev (messages exchange_state)) [] [] = (''hi'', ''ok'') \<and>
   llm_invoke silent_env (extract_prompt silent_env ''hi'' ''ok'') = Inl GenerationFailed \<and>
   extract_memory silent_env exchange_state done_world = (Inl UnboundLocalError, done_world)"
proof -
  have 1: "should_extract_memory exchange_state"
    by (simp add: exchange_state_def)
  have 2: "2 \<le> length (messages exchange_state)"
    by (simp add: exchange_state_def done_state_def)
  have 3: "last_exchange (rev (messages exchange_state)) [] [] = (''hi'', ''ok'')"
    by (simp add: exchange_state_def done_state_def)
  have 4: "''hi'' \<noteq> []" and 5: "''ok'' \<noteq> []" by simp_all
  have 6: "llm_invoke silent_env (extract_prompt silent_env ''hi'' ''ok'') = Inl GenerationFailed"
    by (simp add: silent_env_def)
  have "extract_memory silent_env exchange_state done_world = (Inl UnboundLocalError, done_world)"
    by (rule extract_memory_provider_failure [OF 1 2 3 4 5 6])
  with 1 3 6 show ?thesis by simp
qed

end
